theory Spec2Isabelle
  imports Complex_Main "HOL-Library.AList"
begin

section \<open>Python values, dictionaries and bounded queues\<close>

text \<open>
  The session hub of \<^verbatim>\<open>backend/ws_manager.py\<close> keeps its state in Python dictionaries
  and hands every connected client an \<^verbatim>\<open>asyncio.Queue(maxsize=256)\<close>. Dictionary values
  are the scalars below. A dictionary with string keys (a participant entry, the playback
  state, an event) is an association list in insertion order: \<open>AList.update\<close> is
  \<^verbatim>\<open>d[k] = v\<close> (an existing key keeps its place, a new one goes last), \<open>AList.delete\<close> is
  \<^verbatim>\<open>d.pop(k, None)\<close>, \<open>map_of\<close> is the lookup. Floats are only stored and copied by the
  hub, never computed with, so a real number stands for one.
\<close>

datatype pyval = PNone | PBool bool | PInt int | PFloat real | PStr string

type_synonym pydict = "(string \<times> pyval) list"

text \<open>\<^verbatim>\<open>d.get(k, default)\<close>\<close>

definition dict_get :: "pydict \<Rightarrow> string \<Rightarrow> pyval \<Rightarrow> pyval" where
  "dict_get d k dflt = (case map_of d k of None \<Rightarrow> dflt | Some v \<Rightarrow> v)"

text \<open>\<^verbatim>\<open>d.update({k1: v1, ...})\<close>: the pairs are stored from left to right.\<close>

definition dict_update :: "pydict \<Rightarrow> pydict \<Rightarrow> pydict" where
  "dict_update d kvs = foldl (\<lambda>acc (k, v). AList.update k v acc) d kvs"

text \<open>An \<^verbatim>\<open>Optional[str]\<close> or \<^verbatim>\<open>Optional[float]\<close> as a dictionary value.\<close>

definition opt_str :: "string option \<Rightarrow> pyval" where
  "opt_str t = (case t of None \<Rightarrow> PNone | Some s \<Rightarrow> PStr s)"

definition opt_float :: "real option \<Rightarrow> pyval" where
  "opt_float t = (case t of None \<Rightarrow> PNone | Some x \<Rightarrow> PFloat x)"

text \<open>\<^verbatim>\<open>reason or default\<close>: \<^verbatim>\<open>None\<close> and the empty string are both falsy.\<close>

definition str_or :: "string option \<Rightarrow> string \<Rightarrow> string" where
  "str_or reason dflt = (case reason of None \<Rightarrow> dflt | Some r \<Rightarrow> if r = [] then dflt else r)"

text \<open>
  What a client queue holds: an event dictionary, or \<^verbatim>\<open>None\<close>, the sentinel on which the
  stream generator exits.
\<close>

type_synonym qitem = "pydict option"

datatype queue_error = QueueFull

definition maxsize :: nat where
  "maxsize = 256"

text \<open>\<^verbatim>\<open>Queue.put_nowait\<close>: raises \<^verbatim>\<open>QueueFull\<close> when the queue already holds \<open>maxsize\<close> items.\<close>

definition put_nowait :: "qitem list \<Rightarrow> qitem \<Rightarrow> queue_error + qitem list" where
  "put_nowait q item = (if maxsize \<le> length q then Inl QueueFull else Inr (q @ [item]))"

text \<open>
  The pattern of \<^verbatim>\<open>close_session\<close>, \<^verbatim>\<open>kick_participant\<close> and \<^verbatim>\<open>disconnect_participant\<close>:
  \<^verbatim>\<open>try: q.put_nowait(a); q.put_nowait(b)  except QueueFull: pass\<close>.
\<close>

definition put_two :: "qitem list \<Rightarrow> qitem \<Rightarrow> qitem \<Rightarrow> qitem list" where
  "put_two q a b =
     (case put_nowait q a of
        Inl QueueFull \<Rightarrow> q
      | Inr q1 \<Rightarrow> (case put_nowait q1 b of Inl QueueFull \<Rightarrow> q1 | Inr q2 \<Rightarrow> q2))"

section \<open>The hub state\<close>

text \<open>
  One entry of \<^verbatim>\<open>SESSION_STATE\<close>. The connection dictionaries map a participant id to a
  queue object; a queue object is a reference, modelled as an address into the store
  \<open>queues\<close> of the hub, because a queue outlives its registration (the stream generator
  still reads it after a disconnect or a kick) and the same object is registered in
  \<^verbatim>\<open>self.active\<close> and in \<^verbatim>\<open>SESSION_STATE[...]["connections"]\<close>. The connection dictionaries
  are association lists: \<^verbatim>\<open>broadcast\<close> iterates over them.
\<close>

record session =
  connections :: "(int \<times> nat) list"
  participants :: "int \<rightharpoonup> pydict"
  playback :: pydict

text \<open>
  The whole mutable state: \<^verbatim>\<open>ws_mgr.active\<close>, the module global \<^verbatim>\<open>SESSION_STATE\<close>, the
  contents of every queue object created so far, and the next unused queue address.
  Each coroutine of the manager runs without a suspension point once it holds
  \<^verbatim>\<open>SESSION_LOCK\<close> (\<^verbatim>\<open>put_nowait\<close> never suspends), so an operation is a function from
  state to state. Output written with \<^verbatim>\<open>print\<close> is not part of the state.
\<close>

record hub =
  active :: "int \<rightharpoonup> (int \<times> nat) list"
  SESSION_STATE :: "int \<rightharpoonup> session"
  queues :: "nat \<Rightarrow> qitem list"
  next_queue :: nat

definition empty_hub :: hub where
  "empty_hub = \<lparr>active = Map.empty, SESSION_STATE = Map.empty, queues = (\<lambda>_. []), next_queue = 0\<rparr>"

text \<open>\<^verbatim>\<open>self.active.get(session_id, {})\<close>\<close>

definition conns_of :: "hub \<Rightarrow> int \<Rightarrow> (int \<times> nat) list" where
  "conns_of h session_id = (case active h session_id of None \<Rightarrow> [] | Some c \<Rightarrow> c)"

text \<open>The default session that \<^verbatim>\<open>connect\<close> passes to \<^verbatim>\<open>SESSION_STATE.setdefault\<close>.\<close>

definition default_playback :: pydict where
  "default_playback =
     [(''audio_id'', PNone), (''status'', PStr ''stopped''), (''speed'', PFloat 1),
      (''position'', PFloat 0), (''title'', PNone)]"

definition new_session :: session where
  "new_session = \<lparr>connections = [], participants = Map.empty, playback = default_playback\<rparr>"

section \<open>Connection lifecycle\<close>

text \<open>
  \<^verbatim>\<open>WebSocketManager.connect\<close>: a fresh queue is registered in both connection
  dictionaries and the roster entry is rebuilt, taking \<^verbatim>\<open>is_muted\<close> and \<^verbatim>\<open>raised_hand\<close>
  from the entry that was there. Returns the new state and the queue.
\<close>

definition connect :: "hub \<Rightarrow> int \<Rightarrow> int \<Rightarrow> int \<Rightarrow> string \<Rightarrow> bool \<Rightarrow> hub \<times> nat" where
  "connect h session_id participant_id user_id name is_teacher =
     (let q = next_queue h;
          s = (case SESSION_STATE h session_id of None \<Rightarrow> new_session | Some s0 \<Rightarrow> s0);
          existing = (case participants s participant_id of None \<Rightarrow> [] | Some e \<Rightarrow> e);
          entry = [(''user_id'', PInt user_id),
                   (''name'', PStr name),
                   (''is_muted'', dict_get existing ''is_muted'' (PBool False)),
                   (''raised_hand'', dict_get existing ''raised_hand'' (PBool False)),
                   (''is_teacher'', PBool is_teacher)]
      in (h\<lparr>active := (active h)(session_id \<mapsto> AList.update participant_id q (conns_of h session_id)),
            SESSION_STATE := (SESSION_STATE h)(session_id \<mapsto>
               s\<lparr>connections := AList.update participant_id q (connections s),
                 participants := (participants s)(participant_id \<mapsto> entry)\<rparr>),
            queues := (queues h)(q := []),
            next_queue := Suc q\<rparr>, q))"

text \<open>\<^verbatim>\<open>WebSocketManager.disconnect\<close>: pops the queue from both connection dictionaries.\<close>

definition disconnect :: "hub \<Rightarrow> int \<Rightarrow> int \<Rightarrow> hub" where
  "disconnect h session_id participant_id =
     h\<lparr>active := (case active h session_id of
                    None \<Rightarrow> active h
                  | Some c \<Rightarrow> (active h)(session_id \<mapsto> AList.delete participant_id c)),
       SESSION_STATE := (case SESSION_STATE h session_id of
                    None \<Rightarrow> SESSION_STATE h
                  | Some s \<Rightarrow> (SESSION_STATE h)(session_id \<mapsto>
                      s\<lparr>connections := AList.delete participant_id (connections s)\<rparr>))\<rparr>"

section \<open>Sending\<close>

text \<open>\<^verbatim>\<open>WebSocketManager.send_personal\<close>: one push, a full queue drops the message.\<close>

definition send_personal :: "hub \<Rightarrow> nat \<Rightarrow> pydict \<Rightarrow> hub" where
  "send_personal h q message =
     (case put_nowait (queues h q) (Some message) of
        Inl QueueFull \<Rightarrow> h
      | Inr q' \<Rightarrow> h\<lparr>queues := (queues h)(q := q')\<rparr>)"

text \<open>The \<^verbatim>\<open>for pid, q in conns\<close> loop of \<^verbatim>\<open>broadcast\<close>, on the store of queues.\<close>

fun broadcast_loop ::
  "(nat \<Rightarrow> qitem list) \<Rightarrow> (int \<times> nat) list \<Rightarrow> int set \<Rightarrow> pydict \<Rightarrow> (nat \<Rightarrow> qitem list)" where
  "broadcast_loop qs [] exclude message = qs"
| "broadcast_loop qs ((pid, q) # conns) exclude message =
     (if pid \<in> exclude then broadcast_loop qs conns exclude message
      else (case put_nowait (qs q) (Some message) of
              Inl QueueFull \<Rightarrow> broadcast_loop qs conns exclude message
            | Inr q' \<Rightarrow> broadcast_loop (qs(q := q')) conns exclude message))"

text \<open>
  \<^verbatim>\<open>WebSocketManager.broadcast\<close>. \<^verbatim>\<open>exclude\<close> is an \<^verbatim>\<open>Optional[Set[int]]\<close>;
  \<^verbatim>\<open>exclude or set()\<close> turns \<^verbatim>\<open>None\<close> into the empty set.
\<close>

definition exclude_set :: "int set option \<Rightarrow> int set" where
  "exclude_set exclude = (case exclude of None \<Rightarrow> {} | Some E \<Rightarrow> E)"

definition broadcast :: "hub \<Rightarrow> int \<Rightarrow> pydict \<Rightarrow> int set option \<Rightarrow> hub" where
  "broadcast h session_id message exclude =
     (let excl = exclude_set exclude;
          conns = conns_of h session_id
      in if conns = [] then h
         else h\<lparr>queues := broadcast_loop (queues h) conns excl message\<rparr>)"

text \<open>The loop of \<^verbatim>\<open>close_session\<close>: the farewell event and the sentinel for every queue.\<close>

fun close_loop :: "(nat \<Rightarrow> qitem list) \<Rightarrow> (int \<times> nat) list \<Rightarrow> (nat \<Rightarrow> qitem list)" where
  "close_loop qs [] = qs"
| "close_loop qs ((pid, q) # conns) =
     close_loop (qs(q := put_two (qs q) (Some [(''type'', PStr ''session_ended'')]) None)) conns"

text \<open>\<^verbatim>\<open>WebSocketManager.close_session\<close>\<close>

definition close_session :: "hub \<Rightarrow> int \<Rightarrow> hub" where
  "close_session h session_id =
     h\<lparr>queues := close_loop (queues h) (conns_of h session_id),
       active := (active h)(session_id := None),
       SESSION_STATE := (SESSION_STATE h)(session_id := None)\<rparr>"

section \<open>Participant actions\<close>

text \<open>
  \<^verbatim>\<open>WebSocketManager.mute_participant\<close>: returns at once for an unknown session; otherwise
  \<^verbatim>\<open>participants.setdefault(participant_id, {})["is_muted"] = mute\<close>, then the broadcast.
\<close>

definition mute_participant :: "hub \<Rightarrow> int \<Rightarrow> int \<Rightarrow> bool \<Rightarrow> hub" where
  "mute_participant h session_id participant_id mute =
     (case SESSION_STATE h session_id of
        None \<Rightarrow> h
      | Some s \<Rightarrow>
          (let existing = (case participants s participant_id of None \<Rightarrow> [] | Some e \<Rightarrow> e);
               h1 = h\<lparr>SESSION_STATE := (SESSION_STATE h)(session_id \<mapsto>
                      s\<lparr>participants := (participants s)(participant_id \<mapsto>
                          AList.update ''is_muted'' (PBool mute) existing)\<rparr>)\<rparr>
           in broadcast h1 session_id
                [(''type'', PStr ''participant_muted''), (''participant_id'', PInt participant_id),
                 (''is_muted'', PBool mute)] None))"

text \<open>
  \<^verbatim>\<open>WebSocketManager.kick_participant\<close>: the queue is popped from \<^verbatim>\<open>self.active\<close>, the
  connection and the roster entry are popped from the session, the popped queue (if there
  was one) gets the \<^verbatim>\<open>kicked\<close> event and the sentinel, and then the rest of the session is
  told.
\<close>

definition kick_participant :: "hub \<Rightarrow> int \<Rightarrow> int \<Rightarrow> string option \<Rightarrow> hub" where
  "kick_participant h session_id participant_id reason =
     (let q = map_of (conns_of h session_id) participant_id;
          h1 = h\<lparr>active := (case active h session_id of
                      None \<Rightarrow> active h
                    | Some c \<Rightarrow> (active h)(session_id \<mapsto> AList.delete participant_id c)),
                 SESSION_STATE := (case SESSION_STATE h session_id of
                      None \<Rightarrow> SESSION_STATE h
                    | Some s \<Rightarrow> (SESSION_STATE h)(session_id \<mapsto>
                        s\<lparr>connections := AList.delete participant_id (connections s),
                          participants := (participants s)(participant_id := None)\<rparr>))\<rparr>;
          h2 = (case q of
                  None \<Rightarrow> h1
                | Some qa \<Rightarrow> h1\<lparr>queues := (queues h1)(qa :=
                    put_two (queues h1 qa)
                      (Some [(''type'', PStr ''kicked''),
                             (''reason'', PStr (str_or reason ''Removed by teacher''))])
                      None)\<rparr>)
      in broadcast h2 session_id
           [(''type'', PStr ''participant_kicked''), (''participant_id'', PInt participant_id)] None)"

section \<open>Audio playback\<close>

text \<open>
  \<^verbatim>\<open>WebSocketManager.audio_select\<close>: the session is created if absent, here with an empty
  playback dictionary, which the update then fills.
\<close>

definition audio_select :: "hub \<Rightarrow> int \<Rightarrow> int \<Rightarrow> string option \<Rightarrow> hub" where
  "audio_select h session_id audio_id title =
     (let s = (case SESSION_STATE h session_id of
                 None \<Rightarrow> \<lparr>connections = [], participants = Map.empty, playback = []\<rparr>
               | Some s0 \<Rightarrow> s0);
          h1 = h\<lparr>SESSION_STATE := (SESSION_STATE h)(session_id \<mapsto>
                 s\<lparr>playback := dict_update (playback s)
                     [(''audio_id'', PInt audio_id), (''title'', opt_str title),
                      (''status'', PStr ''stopped''), (''position'', PFloat 0)]\<rparr>)\<rparr>
      in broadcast h1 session_id
           [(''type'', PStr ''audio_selected''), (''audio_id'', PInt audio_id),
            (''title'', opt_str title)] None)"

text \<open>\<^verbatim>\<open>WebSocketManager.audio_play\<close>\<close>

definition audio_play :: "hub \<Rightarrow> int \<Rightarrow> int \<Rightarrow> real \<Rightarrow> real \<Rightarrow> hub" where
  "audio_play h session_id audio_id speed position =
     (case SESSION_STATE h session_id of
        None \<Rightarrow> h
      | Some s \<Rightarrow>
          (let h1 = h\<lparr>SESSION_STATE := (SESSION_STATE h)(session_id \<mapsto>
                 s\<lparr>playback := dict_update (playback s)
                     [(''status'', PStr ''playing''), (''audio_id'', PInt audio_id),
                      (''speed'', PFloat speed), (''position'', PFloat position)]\<rparr>)\<rparr>
           in broadcast h1 session_id
                [(''type'', PStr ''audio_play''), (''audio_id'', PInt audio_id),
                 (''speed'', PFloat speed), (''position'', PFloat position)] None))"

text \<open>\<^verbatim>\<open>WebSocketManager.audio_pause\<close>\<close>

definition audio_pause :: "hub \<Rightarrow> int \<Rightarrow> real \<Rightarrow> hub" where
  "audio_pause h session_id position =
     (case SESSION_STATE h session_id of
        None \<Rightarrow> h
      | Some s \<Rightarrow>
          (let h1 = h\<lparr>SESSION_STATE := (SESSION_STATE h)(session_id \<mapsto>
                 s\<lparr>playback := AList.update ''position'' (PFloat position)
                     (AList.update ''status'' (PStr ''paused'') (playback s))\<rparr>)\<rparr>
           in broadcast h1 session_id
                [(''type'', PStr ''audio_pause''), (''position'', PFloat position)] None))"

text \<open>\<^verbatim>\<open>WebSocketManager.disconnect_participant\<close>: as a kick, but the roster entry stays.\<close>

definition disconnect_participant :: "hub \<Rightarrow> int \<Rightarrow> int \<Rightarrow> string option \<Rightarrow> hub" where
  "disconnect_participant h session_id participant_id reason =
     (let q = map_of (conns_of h session_id) participant_id;
          h1 = disconnect h session_id participant_id
      in (case q of
            None \<Rightarrow> h1
          | Some qa \<Rightarrow> h1\<lparr>queues := (queues h1)(qa :=
              put_two (queues h1 qa)
                (Some [(''type'', PStr ''disconnected''),
                       (''reason'', PStr (str_or reason ''Connection closed''))])
                None)\<rparr>))"

section \<open>The REST control handler\<close>

text \<open>
  \<^verbatim>\<open>control_audio_playback\<close> of \<^verbatim>\<open>backend/main.py\<close>. The request body is
  \<^verbatim>\<open>schemas.AudioPlaybackControl\<close>; the audio table of the database is a map from audio id
  to the two columns the handler reads. An \<^verbatim>\<open>HTTPException\<close> is the left summand; on
  success the handler returns the new state, the action it reports and the playback
  dictionary.
\<close>

record AudioPlaybackControl =
  c_audio_id :: "int option"
  c_speed :: real
  c_position :: real
  c_action :: string

record AudioFile =
  af_title :: string
  af_duration :: "real option"

datatype http_error = HTTPException nat string

definition control_audio_playback ::
  "hub \<Rightarrow> (int \<rightharpoonup> AudioFile) \<Rightarrow> int \<Rightarrow> AudioPlaybackControl
     \<Rightarrow> http_error + (hub \<times> string \<times> pydict)" where
  "control_audio_playback h db session_id control =
     (case SESSION_STATE h session_id of
        None \<Rightarrow> Inl (HTTPException 404 ''Session not found'')
      | Some s \<Rightarrow>
          (let pb = playback s;
               aid = (case c_audio_id control of
                        None \<Rightarrow> dict_get pb ''audio_id'' PNone
                      | Some a \<Rightarrow> PInt a)
           in if aid = PNone then Inl (HTTPException 400 ''No audio selected'')
              else
                (case (case aid of PInt a \<Rightarrow> db a | _ \<Rightarrow> None) of
                   None \<Rightarrow> Inl (HTTPException 404 ''Audio file not found'')
                 | Some audio_file \<Rightarrow>
                     (let outcome =
                        (if c_action control = ''play'' then
                           Some (dict_update pb
                                   [(''audio_id'', aid), (''status'', PStr ''playing''),
                                    (''speed'', PFloat (c_speed control)),
                                    (''position'', PFloat (c_position control)),
                                    (''title'', PStr (af_title audio_file)),
                                    (''duration'', opt_float (af_duration audio_file))],
                                 ''play'')
                         else if c_action control = ''pause'' then
                           Some (dict_update pb
                                   [(''status'', PStr ''paused''),
                                    (''position'', PFloat (c_position control))],
                                 ''pause'')
                         else if c_action control = ''seek'' then
                           (let pb1 = dict_update pb [(''position'', PFloat (c_position control))]
                            in Some (pb1,
                                 if map_of pb1 ''status'' = Some (PStr ''playing'')
                                 then ''play'' else ''seek''))
                         else None)
                      in (case outcome of
                            None \<Rightarrow> Inl (HTTPException 400 ''Invalid action'')
                          | Some (pb', act) \<Rightarrow>
                              Inr (broadcast
                                     (h\<lparr>SESSION_STATE := (SESSION_STATE h)(session_id \<mapsto>
                                          s\<lparr>playback := pb'\<rparr>)\<rparr>)
                                     session_id
                                     [(''type'', PStr (''audio_'' @ act)), (''audio_id'', aid),
                                      (''speed'', PFloat (c_speed control)),
                                      (''position'', PFloat (c_position control)),
                                      (''title'', PStr (af_title audio_file)),
                                      (''duration'', opt_float (af_duration audio_file))]
                                     None,
                                   act, pb'))))))"

section \<open>Observations and well-formed states\<close>

text \<open>The roster entry of a participant, and the playback dictionary of a session.\<close>

definition roster_entry :: "hub \<Rightarrow> int \<Rightarrow> int \<Rightarrow> pydict option" where
  "roster_entry h session_id participant_id =
     (case SESSION_STATE h session_id of None \<Rightarrow> None | Some s \<Rightarrow> participants s participant_id)"

definition playback_of :: "hub \<Rightarrow> int \<Rightarrow> pydict option" where
  "playback_of h session_id = map_option playback (SESSION_STATE h session_id)"

text \<open>\<^verbatim>\<open>SESSION_STATE[session_id]["connections"]\<close>, empty for an unknown session.\<close>

definition session_conns :: "hub \<Rightarrow> int \<Rightarrow> (int \<times> nat) list" where
  "session_conns h session_id =
     (case SESSION_STATE h session_id of None \<Rightarrow> [] | Some s \<Rightarrow> connections s)"

text \<open>
  What Python guarantees of the connection dictionaries and the manager of the queues in
  them: a dictionary has each key once, \<^verbatim>\<open>connect\<close> registers a queue object it has just
  created, so no queue is registered for two participants of a session, and every
  registered queue has been allocated.
\<close>

definition wf_conns :: "nat \<Rightarrow> (int \<times> nat) list \<Rightarrow> bool" where
  "wf_conns n c \<longleftrightarrow> distinct (map fst c) \<and> distinct (map snd c) \<and> list_all (\<lambda>q. q < n) (map snd c)"

definition wf_hub :: "hub \<Rightarrow> bool" where
  "wf_hub h \<longleftrightarrow> (\<forall>session_id. wf_conns (next_queue h) (conns_of h session_id))"



text \<open>
  The states the manager can be in: from the state at start-up, by any of its operations
  with any arguments and by a successful call of the control handler.
\<close>

inductive reachable :: "hub \<Rightarrow> bool" where
  r_start: "reachable empty_hub"
| r_connect: "reachable h \<Longrightarrow> reachable (fst (connect h sid pid uid name t))"
| r_disconnect: "reachable h \<Longrightarrow> reachable (disconnect h sid pid)"
| r_send_personal: "reachable h \<Longrightarrow> reachable (send_personal h q m)"
| r_broadcast: "reachable h \<Longrightarrow> reachable (broadcast h sid m E)"
| r_close_session: "reachable h \<Longrightarrow> reachable (close_session h sid)"
| r_mute: "reachable h \<Longrightarrow> reachable (mute_participant h sid pid b)"
| r_kick: "reachable h \<Longrightarrow> reachable (kick_participant h sid pid reason)"
| r_disconnect_participant: "reachable h \<Longrightarrow> reachable (disconnect_participant h sid pid reason)"
| r_audio_select: "reachable h \<Longrightarrow> reachable (audio_select h sid aid title)"
| r_audio_play: "reachable h \<Longrightarrow> reachable (audio_play h sid aid speed pos)"
| r_audio_pause: "reachable h \<Longrightarrow> reachable (audio_pause h sid pos)"
| r_control: "reachable h \<Longrightarrow> control_audio_playback h db sid c = Inr (h', a, pb) \<Longrightarrow> reachable h'"

section \<open>Example states\<close>

text \<open>
  Session 1 with participant 1 (queue 0), then also participant 2 (queue 1), and the
  latter state after 256 personal messages to queue 0 that nobody has read.
\<close>

definition ping :: pydict where
  "ping = [(''type'', PStr ''ping'')]"

definition one_hub :: hub where
  "one_hub = fst (connect empty_hub 1 1 10 ''A'' False)"

definition two_hub :: hub where
  "two_hub = fst (connect one_hub 1 2 20 ''B'' True)"

definition full_hub :: hub where
  "full_hub = ((\<lambda>h. send_personal h 0 ping) ^^ 256) two_hub"

section \<open>Facts about the loops and the connection dictionaries\<close>

lemma broadcast_loop_other:
  "q \<notin> snd ` set conns \<Longrightarrow> broadcast_loop qs conns E M q = qs q"
  by (induction conns arbitrary: qs) (auto simp: put_nowait_def split: sum.splits queue_error.splits)

lemma broadcast_loop_at:
  "distinct (map snd conns) \<Longrightarrow> (pid, q) \<in> set conns \<Longrightarrow>
   broadcast_loop qs conns E M q =
     (if pid \<in> E \<or> maxsize \<le> length (qs q) then qs q else qs q @ [Some M])"
proof (induction conns arbitrary: qs)
  case Nil
  then show ?case by simp
next
  case (Cons a conns)
  obtain p' q' where a: "a = (p', q')" by (cases a)
  show ?case
  proof (cases "(pid, q) = (p', q')")
    case True
    with Cons.prems a have "q \<notin> snd ` set conns" by auto
    with True a show ?thesis
      by (auto simp: broadcast_loop_other put_nowait_def)
  next
    case False
    with Cons.prems a have mem: "(pid, q) \<in> set conns" and ne: "q \<noteq> q'" by force+
    from Cons.prems have d: "distinct (map snd conns)" by simp
    show ?thesis using Cons.IH[OF d mem] ne a
      by (auto simp: put_nowait_def)
  qed
qed

lemma broadcast_loop_appends:
  "\<exists>n. broadcast_loop qs conns E M q = qs q @ replicate n (Some M)"
proof (induction conns arbitrary: qs)
  case Nil
  show ?case by simp
next
  case (Cons a conns)
  obtain p' q' where a: "a = (p', q')" by (cases a)
  show ?case
  proof (cases "p' \<in> E \<or> maxsize \<le> length (qs q')")
    case True
    then show ?thesis using Cons.IH[of qs] a by (auto simp: put_nowait_def)
  next
    case False
    obtain n where n: "broadcast_loop (qs(q' := qs q' @ [Some M])) conns E M q
        = (qs(q' := qs q' @ [Some M])) q @ replicate n (Some M)"
      using Cons.IH by blast
    show ?thesis
    proof (cases "q = q'")
      case True
      with n False a have "broadcast_loop qs (a # conns) E M q = qs q @ replicate (Suc n) (Some M)"
        by (simp add: put_nowait_def replicate_app_Cons_same)
      then show ?thesis by blast
    next
      case False2: False
      with n False a have "broadcast_loop qs (a # conns) E M q = qs q @ replicate n (Some M)"
        by (simp add: put_nowait_def)
      then show ?thesis by blast
    qed
  qed
qed

lemma broadcast_loop_full:
  "maxsize \<le> length (qs q) \<Longrightarrow> broadcast_loop qs conns E M q = qs q"
proof (induction conns arbitrary: qs)
  case Nil
  show ?case by simp
next
  case (Cons a conns)
  obtain p' q' where a: "a = (p', q')" by (cases a)
  show ?case
  proof (cases "p' \<in> E \<or> maxsize \<le> length (qs q')")
    case True
    then show ?thesis using Cons.IH[of qs] Cons.prems a by (auto simp: put_nowait_def)
  next
    case False
    with Cons.prems have ne: "q \<noteq> q'" by auto
    let ?qs = "qs(q' := qs q' @ [Some M])"
    have full': "maxsize \<le> length (?qs q)" using ne Cons.prems by simp
    have "broadcast_loop ?qs conns E M q = ?qs q"
      by (rule Cons.IH[of ?qs, OF full'])
    also have "\<dots> = qs q" using ne by simp
    finally have step: "broadcast_loop ?qs conns E M q = qs q" .
    have "broadcast_loop qs (a # conns) E M q = broadcast_loop ?qs conns E M q"
      using False a by (simp add: put_nowait_def)
    with step show ?thesis by simp
  qed
qed

lemma close_loop_other:
  "q \<notin> snd ` set conns \<Longrightarrow> close_loop qs conns q = qs q"
  by (induction conns arbitrary: qs) auto

lemma close_loop_at:
  "distinct (map snd conns) \<Longrightarrow> (pid, q) \<in> set conns \<Longrightarrow>
   close_loop qs conns q = put_two (qs q) (Some [(''type'', PStr ''session_ended'')]) None"
proof (induction conns arbitrary: qs)
  case Nil
  then show ?case by simp
next
  case (Cons a conns)
  obtain p' q' where a: "a = (p', q')" by (cases a)
  show ?case
  proof (cases "q = q'")
    case True
    with Cons.prems a have "q \<notin> snd ` set conns" by auto
    with True a show ?thesis by (simp add: close_loop_other)
  next
    case False
    with Cons.prems a have mem: "(pid, q) \<in> set conns" by auto
    from Cons.prems have d: "distinct (map snd conns)" by simp
    show ?thesis using Cons.IH[OF d mem] False a by simp
  qed
qed

lemma put_two_cases:
  "put_two q a b =
     (if length q + 2 \<le> maxsize then q @ [a, b]
      else if length q + 1 = maxsize then q @ [a] else q)"
  by (auto simp: put_two_def put_nowait_def maxsize_def)

lemma broadcast_fields [simp]:
  "active (broadcast h S M E) = active h"
  "SESSION_STATE (broadcast h S M E) = SESSION_STATE h"
  "next_queue (broadcast h S M E) = next_queue h"
  "conns_of (broadcast h S M E) S' = conns_of h S'"
  by (simp_all add: broadcast_def Let_def conns_of_def)

lemma broadcast_queues:
  "queues (broadcast h S M E) = broadcast_loop (queues h) (conns_of h S) (exclude_set E) M"
  by (simp add: broadcast_def Let_def)

lemma broadcast_unknown: "active h S = None \<Longrightarrow> broadcast h S M E = h"
  by (simp add: broadcast_def conns_of_def)

lemma snd_set_update: "snd ` set (AList.update k v c) \<subseteq> insert v (snd ` set c)"
  by (induction c) auto

lemma snd_set_delete: "snd ` set (AList.delete k c) \<subseteq> snd ` set c"
  by (auto simp: AList.delete_eq)

lemma distinct_snd_update:
  "distinct (map snd c) \<Longrightarrow> v \<notin> snd ` set c \<Longrightarrow> distinct (map snd (AList.update k v c))"
proof (induction c)
  case Nil
  then show ?case by simp
next
  case (Cons a c)
  have "snd ` set (AList.update k v c) \<subseteq> insert v (snd ` set c)" by (rule snd_set_update)
  with Cons show ?case by (cases a) (auto simp: image_iff)
qed

lemma distinct_snd_delete:
  "distinct (map snd c) \<Longrightarrow> distinct (map snd (AList.delete k c))"
  by (simp add: AList.delete_eq distinct_map_filter)

lemma wf_conns_update:
  assumes "wf_conns n c"
  shows "wf_conns (Suc n) (AList.update k n c)"
proof -
  from assms have d1: "distinct (map fst c)" and d2: "distinct (map snd c)"
    and lt: "\<forall>q \<in> snd ` set c. q < n"
    by (auto simp: wf_conns_def list_all_iff)
  from lt have "n \<notin> snd ` set c" by auto
  with d2 have "distinct (map snd (AList.update k n c))" by (rule distinct_snd_update)
  moreover from d1 have "distinct (map fst (AList.update k n c))" by (rule distinct_update)
  moreover have "\<forall>q \<in> snd ` set (AList.update k n c). q < Suc n"
    using snd_set_update[of k n c] lt by fastforce
  ultimately show ?thesis by (simp add: wf_conns_def list_all_iff)
qed

lemma wf_conns_delete:
  assumes "wf_conns n c"
  shows "wf_conns n (AList.delete k c)"
proof -
  have "set (AList.delete k c) \<subseteq> set c" by (auto simp: AList.delete_eq)
  with assms show ?thesis
    by (auto simp: wf_conns_def list_all_iff distinct_delete distinct_snd_delete)
qed

lemma wf_conns_mono: "wf_conns n c \<Longrightarrow> n \<le> m \<Longrightarrow> wf_conns m c"
  by (auto simp: wf_conns_def list_all_iff)

lemma wf_conns_Nil [simp]: "wf_conns n []"
  by (simp add: wf_conns_def)

lemma wf_hub_empty: "wf_hub empty_hub"
  by (simp add: wf_hub_def empty_hub_def conns_of_def)

lemma conns_of_connect:
  "conns_of (fst (connect h S P u n t)) S' =
     (if S' = S then AList.update P (next_queue h) (conns_of h S) else conns_of h S')"
  by (simp add: connect_def Let_def conns_of_def)

lemma next_queue_connect: "next_queue (fst (connect h S P u n t)) = Suc (next_queue h)"
  by (simp add: connect_def Let_def)

lemma wf_hub_connect: "wf_hub h \<Longrightarrow> wf_hub (fst (connect h S P u n t))"
  unfolding wf_hub_def
proof
  fix S'
  assume "\<forall>session_id. wf_conns (next_queue h) (conns_of h session_id)"
  then have w: "wf_conns (next_queue h) (conns_of h S')" for S' by blast
  show "wf_conns (next_queue (fst (connect h S P u n t))) (conns_of (fst (connect h S P u n t)) S')"
    using w[of S] w[of S']
    by (auto simp: conns_of_connect next_queue_connect wf_conns_update intro: wf_conns_mono)
qed

lemma wf_hub_disconnect: "wf_hub h \<Longrightarrow> wf_hub (disconnect h S P)"
  unfolding wf_hub_def
proof
  fix S'
  assume a: "\<forall>session_id. wf_conns (next_queue h) (conns_of h session_id)"
  then have w: "wf_conns (next_queue h) (conns_of h S')" by blast
  then show "wf_conns (next_queue (disconnect h S P)) (conns_of (disconnect h S P) S')"
    by (auto simp: disconnect_def conns_of_def wf_conns_delete split: option.splits)
qed

section \<open>Facts about sending and about the example states\<close>

lemma send_personal_fields [simp]:
  "active (send_personal h q m) = active h"
  "SESSION_STATE (send_personal h q m) = SESSION_STATE h"
  "next_queue (send_personal h q m) = next_queue h"
  "conns_of (send_personal h q m) S = conns_of h S"
  by (simp_all add: send_personal_def conns_of_def put_nowait_def)

lemma send_personal_queues:
  "queues (send_personal h q m) =
     (if maxsize \<le> length (queues h q) then queues h else (queues h)(q := queues h q @ [Some m]))"
  by (simp add: send_personal_def put_nowait_def)

lemma send_personal_funpow:
  "n + length (queues h q) \<le> maxsize \<Longrightarrow>
   ((\<lambda>h. send_personal h q m) ^^ n) h = h\<lparr>queues := (queues h)(q := queues h q @ replicate n (Some m))\<rparr>"
proof (induction n)
  case 0
  show ?case by simp
next
  case (Suc n)
  let ?h' = "h\<lparr>queues := (queues h)(q := queues h q @ replicate n (Some m))\<rparr>"
  have ih: "((\<lambda>h. send_personal h q m) ^^ n) h = ?h'"
    by (rule Suc.IH) (use Suc.prems in simp)
  have "((\<lambda>h. send_personal h q m) ^^ Suc n) h = send_personal ?h' q m"
    by (simp add: ih)
  also have "\<dots> = h\<lparr>queues := (queues h)(q := queues h q @ replicate (Suc n) (Some m))\<rparr>"
    using Suc.prems by (simp add: send_personal_def put_nowait_def replicate_append_same)
  finally show ?case .
qed

lemma two_hub_conns: "conns_of two_hub S = (if S = 1 then [(1, 0), (2, 1)] else [])"
  by (simp add: two_hub_def one_hub_def empty_hub_def connect_def Let_def conns_of_def new_session_def)

lemma two_hub_queues: "queues two_hub q = []"
  by (simp add: two_hub_def one_hub_def empty_hub_def connect_def Let_def)

lemma two_hub_next: "next_queue two_hub = 2"
  by (simp add: two_hub_def one_hub_def empty_hub_def connect_def Let_def)

lemma two_hub_reachable: "reachable two_hub"
  unfolding two_hub_def one_hub_def by (intro reachable.intros)

lemma full_hub_eq: "full_hub = two_hub\<lparr>queues := (queues two_hub)(0 := replicate 256 (Some ping))\<rparr>"
  unfolding full_hub_def
  by (subst send_personal_funpow) (simp_all add: two_hub_queues maxsize_def)

lemma funpow_reachable: "reachable h \<Longrightarrow> reachable (((\<lambda>h. send_personal h q m) ^^ n) h)"
  by (induction n) (auto intro: reachable.intros)

lemma full_hub_reachable: "reachable full_hub"
  unfolding full_hub_def by (rule funpow_reachable[OF two_hub_reachable])

lemma wf_two_hub: "wf_hub two_hub"
  by (simp add: wf_hub_def two_hub_conns two_hub_next wf_conns_def)

lemma full_hub_conns: "conns_of full_hub S = (if S = 1 then [(1, 0), (2, 1)] else [])"
  using two_hub_conns[of S] by (simp add: full_hub_eq conns_of_def)

lemma full_hub_queues: "queues full_hub q = (if q = 0 then replicate 256 (Some ping) else [])"
  by (simp add: full_hub_eq two_hub_queues)

lemma full_hub_next: "next_queue full_hub = 2"
  by (simp add: full_hub_eq two_hub_next)

lemma wf_full_hub: "wf_hub full_hub"
  by (simp add: wf_hub_def full_hub_conns full_hub_next wf_conns_def)

section \<open>Who receives a broadcast\<close>

lemma wf_hub_distinct: "wf_hub h \<Longrightarrow> distinct (map snd (conns_of h S))"
  by (simp add: wf_hub_def wf_conns_def)

lemma broadcast_at:
  assumes "wf_hub h" and "map_of (conns_of h S) pid = Some q"
  shows "queues (broadcast h S M E) q =
     (if pid \<in> exclude_set E \<or> maxsize \<le> length (queues h q) then queues h q
      else queues h q @ [Some M])"
proof -
  from assms(2) have "(pid, q) \<in> set (conns_of h S)" by (rule map_of_SomeD)
  with wf_hub_distinct[OF assms(1)] show ?thesis
    by (simp add: broadcast_queues broadcast_loop_at)
qed

text \<open>
  Claim C3 says that a broadcast enqueues the message exactly once onto every registered
  channel of the session that is not excluded. A channel that already holds 256 items is
  registered and not excluded, and gets nothing: in \<open>full_hub\<close> participant 1 of session 1
  is registered with queue 0, is not in the exclude set, and after the broadcast queue 0
  is as before and does not hold the message.
\<close>

theorem broadcast_full_channel_counterexample:
  "map_of (conns_of full_hub 1) 1 = Some 0 \<and>
   1 \<notin> exclude_set (Some {2}) \<and>
   queues (broadcast full_hub 1 [(''type'', PStr ''hello'')] (Some {2})) 0 = queues full_hub 0 \<and>
   Some [(''type'', PStr ''hello'')]
     \<notin> set (queues (broadcast full_hub 1 [(''type'', PStr ''hello'')] (Some {2})) 0)"
  by (simp add: full_hub_conns full_hub_queues broadcast_queues exclude_set_def
      put_nowait_def maxsize_def ping_def)

text \<open>
  Claim C3, amended. In a well-formed state, a broadcast to session \<open>S\<close> leaves the queue
  of every registered participant that is excluded, or whose queue is full, as it was,
  and appends the message exactly once to the queue of every other registered
  participant; when \<open>S\<close> is not a key of \<^verbatim>\<open>self.active\<close> the call changes nothing.
\<close>

theorem broadcast_once_unless_full:
  assumes "wf_hub h"
  shows "(\<forall>pid q. map_of (conns_of h S) pid = Some q \<longrightarrow>
            queues (broadcast h S M E) q =
              (if pid \<in> exclude_set E \<or> maxsize \<le> length (queues h q) then queues h q
               else queues h q @ [Some M])) \<and>
         (active h S = None \<longrightarrow> broadcast h S M E = h)"
  using assms by (simp add: broadcast_at broadcast_unknown)

theorem broadcast_once_unless_full_witness:
  "wf_hub two_hub \<and>
   map_of (conns_of two_hub 1) 1 = Some 0 \<and>
   map_of (conns_of two_hub 1) 2 = Some 1 \<and>
   queues (broadcast two_hub 1 ping (Some {2})) 0 = [Some ping] \<and>
   queues (broadcast two_hub 1 ping (Some {2})) 1 = [] \<and>
   active two_hub 5 = None \<and>
   broadcast two_hub 5 ping (Some {2}) = two_hub"
proof -
  have a: "map_of (conns_of two_hub 1) 1 = Some 0" "map_of (conns_of two_hub 1) 2 = Some 1"
    by (simp_all add: two_hub_conns)
  have b: "active two_hub 5 = None"
    by (simp add: two_hub_def one_hub_def empty_hub_def connect_def Let_def)
  from broadcast_once_unless_full[OF wf_two_hub, of 1 ping "Some {2}"] a
  have "queues (broadcast two_hub 1 ping (Some {2})) 0 = [Some ping]"
    and "queues (broadcast two_hub 1 ping (Some {2})) 1 = []"
    by (simp_all add: exclude_set_def two_hub_queues maxsize_def)
  moreover from broadcast_once_unless_full[OF wf_two_hub, of 5 ping "Some {2}"] b
  have "broadcast two_hub 5 ping (Some {2}) = two_hub" by simp
  ultimately show ?thesis using a b wf_two_hub by simp
qed

section \<open>A full channel\<close>

text \<open>
  Claim C7. When a queue holds \<open>maxsize = 256\<close> items, \<^verbatim>\<open>put_nowait\<close> raises
  \<^verbatim>\<open>QueueFull\<close>, which \<^verbatim>\<open>send_personal\<close> catches: it returns with the state, and so the
  queue, unchanged. A broadcast leaves the full queue unchanged as well, and every other
  registered recipient that is not excluded and has room still gets the message.
\<close>

theorem full_channel_drops:
  assumes "wf_hub h" and "length (queues h q) = maxsize"
  shows "maxsize = 256 \<and>
         put_nowait (queues h q) (Some M) = Inl QueueFull \<and>
         send_personal h q M = h \<and>
         queues (broadcast h S M E) q = queues h q \<and>
         (\<forall>pid' q'. map_of (conns_of h S) pid' = Some q' \<and> pid' \<notin> exclude_set E \<and>
              length (queues h q') < maxsize \<longrightarrow>
            queues (broadcast h S M E) q' = queues h q' @ [Some M])"
proof -
  from assms(2) have full: "maxsize \<le> length (queues h q)" by simp
  have "maxsize = 256" by (simp add: maxsize_def)
  moreover from full have "put_nowait (queues h q) (Some M) = Inl QueueFull"
    by (simp add: put_nowait_def)
  moreover from full have "send_personal h q M = h"
    by (simp add: send_personal_def put_nowait_def)
  moreover from full have "queues (broadcast h S M E) q = queues h q"
    by (simp add: broadcast_queues broadcast_loop_full)
  moreover have "\<forall>pid' q'. map_of (conns_of h S) pid' = Some q' \<and> pid' \<notin> exclude_set E \<and>
              length (queues h q') < maxsize \<longrightarrow>
            queues (broadcast h S M E) q' = queues h q' @ [Some M]"
    by (auto simp: broadcast_at[OF assms(1)])
  ultimately show ?thesis by blast
qed

theorem full_channel_drops_witness:
  "wf_hub full_hub \<and> length (queues full_hub 0) = maxsize \<and>
   send_personal full_hub 0 [(''type'', PStr ''hello'')] = full_hub \<and>
   queues (broadcast full_hub 1 [(''type'', PStr ''hello'')] None) 0 = replicate 256 (Some ping) \<and>
   map_of (conns_of full_hub 1) 2 = Some 1 \<and>
   queues (broadcast full_hub 1 [(''type'', PStr ''hello'')] None) 1 = [Some [(''type'', PStr ''hello'')]]"
proof -
  have len: "length (queues full_hub 0) = maxsize"
    by (simp add: full_hub_queues maxsize_def)
  have c: "map_of (conns_of full_hub 1) 2 = Some 1" by (simp add: full_hub_conns)
  have e: "(2::int) \<notin> exclude_set None" by (simp add: exclude_set_def)
  have l: "length (queues full_hub 1) < maxsize" by (simp add: full_hub_queues maxsize_def)
  from full_channel_drops[OF wf_full_hub len, of "[(''type'', PStr ''hello'')]" 1 None] c e l
  show ?thesis using wf_full_hub len by (simp add: full_hub_queues)
qed

section \<open>Kicking a participant\<close>

lemma distinct_snd_unique:
  "distinct (map snd c) \<Longrightarrow> (a, q) \<in> set c \<Longrightarrow> (b, q) \<in> set c \<Longrightarrow> a = b"
proof -
  assume d: "distinct (map snd c)" and a: "(a, q) \<in> set c" and b: "(b, q) \<in> set c"
  from d have "inj_on snd (set c)" by (simp add: distinct_map)
  from inj_onD[OF this _ a b] show "a = b" by simp
qed

lemma delete_drops_queue:
  assumes "distinct (map snd c)" and "(P, q) \<in> set c"
  shows "q \<notin> snd ` set (AList.delete P c)"
proof
  assume "q \<in> snd ` set (AList.delete P c)"
  then obtain p' where p': "(p', q) \<in> set c" "p' \<noteq> P"
    by (auto simp: AList.delete_eq)
  with distinct_snd_unique[OF assms(1) p'(1) assms(2)] show False by simp
qed

lemma put_two_drop:
  "drop (length q) (put_two q a b) =
     (if length q + 2 \<le> maxsize then [a, b] else if length q + 1 = maxsize then [a] else [])"
  by (simp add: put_two_cases)

lemma kick_conns:
  "conns_of (kick_participant h S P r) S' =
     (if S' = S then AList.delete P (conns_of h S) else conns_of h S')"
  by (simp add: kick_participant_def Let_def conns_of_def split: option.splits)

lemma kick_next [simp]: "next_queue (kick_participant h S P r) = next_queue h"
  by (simp add: kick_participant_def Let_def split: option.splits)

lemma kick_active:
  "active (kick_participant h S P r) =
     (case active h S of None \<Rightarrow> active h | Some c \<Rightarrow> (active h)(S \<mapsto> AList.delete P c))"
  by (simp add: kick_participant_def Let_def split: option.splits)

lemma kick_SESSION_STATE:
  "SESSION_STATE (kick_participant h S P r) =
     (case SESSION_STATE h S of
        None \<Rightarrow> SESSION_STATE h
      | Some s \<Rightarrow> (SESSION_STATE h)(S \<mapsto>
          s\<lparr>connections := AList.delete P (connections s),
            participants := (participants s)(P := None)\<rparr>))"
  by (simp add: kick_participant_def Let_def split: option.splits)

lemma kick_queues:
  "queues (kick_participant h S P r) =
     broadcast_loop
       (case map_of (conns_of h S) P of
          None \<Rightarrow> queues h
        | Some qa \<Rightarrow> (queues h)(qa := put_two (queues h qa)
            (Some [(''type'', PStr ''kicked''), (''reason'', PStr (str_or r ''Removed by teacher''))])
            None))
       (AList.delete P (conns_of h S)) {}
       [(''type'', PStr ''participant_kicked''), (''participant_id'', PInt P)]"
  by (simp add: kick_participant_def Let_def broadcast_queues conns_of_def
      exclude_set_def split: option.splits)

lemma wf_hub_kick: "wf_hub h \<Longrightarrow> wf_hub (kick_participant h S P r)"
  unfolding wf_hub_def
proof
  fix S'
  assume "\<forall>session_id. wf_conns (next_queue h) (conns_of h session_id)"
  then have w: "wf_conns (next_queue h) (conns_of h S')" for S' by blast
  show "wf_conns (next_queue (kick_participant h S P r)) (conns_of (kick_participant h S P r) S')"
    using w[of S] w[of S'] by (simp add: kick_conns wf_conns_delete)
qed

lemma kicked_queue_content:
  assumes "wf_hub h" and "map_of (conns_of h S) P = Some q"
  shows "queues (kick_participant h S P r) q =
           put_two (queues h q)
             (Some [(''type'', PStr ''kicked''), (''reason'', PStr (str_or r ''Removed by teacher''))])
             None"
proof -
  from assms(2) have mem: "(P, q) \<in> set (conns_of h S)" by (rule map_of_SomeD)
  from wf_hub_distinct[OF assms(1)] mem have "q \<notin> snd ` set (AList.delete P (conns_of h S))"
    by (rule delete_drops_queue)
  then show ?thesis
    using assms(2) by (simp add: kick_queues broadcast_loop_other)
qed

lemma kick_other_queue_content:
  assumes "wf_hub h" and "map_of (conns_of h S) P' = Some q'" and "P' \<noteq> P"
  shows "queues (kick_participant h S P r) q' =
           (if maxsize \<le> length (queues h q') then queues h q'
            else queues h q' @ [Some [(''type'', PStr ''participant_kicked''), (''participant_id'', PInt P)]])"
proof -
  from assms(2) have mem: "(P', q') \<in> set (conns_of h S)" by (rule map_of_SomeD)
  with assms(3) have mem': "(P', q') \<in> set (AList.delete P (conns_of h S))"
    by (simp add: AList.delete_eq)
  have d: "distinct (map snd (AList.delete P (conns_of h S)))"
    using wf_hub_distinct[OF assms(1)] by (rule distinct_snd_delete)
  have same: "(case map_of (conns_of h S) P of
          None \<Rightarrow> queues h
        | Some qa \<Rightarrow> (queues h)(qa := put_two (queues h qa)
            (Some [(''type'', PStr ''kicked''), (''reason'', PStr (str_or r ''Removed by teacher''))])
            None)) q' = queues h q'"
  proof (cases "map_of (conns_of h S) P")
    case None
    then show ?thesis by simp
  next
    case (Some qa)
    then have "(P, qa) \<in> set (conns_of h S)" by (rule map_of_SomeD)
    with distinct_snd_unique[OF wf_hub_distinct[OF assms(1)] mem] assms(3) have "qa \<noteq> q'" by blast
    with Some show ?thesis by simp
  qed
  show ?thesis
    unfolding kick_queues broadcast_loop_at[OF d mem'] same by simp
qed

text \<open>
  Claim C10 says that the queue of a kicked participant receives the \<^verbatim>\<open>kicked\<close> event
  followed by the sentinel. Both pushes sit in one \<^verbatim>\<open>try\<close> whose \<^verbatim>\<open>QueueFull\<close> handler
  does nothing: in \<open>full_hub\<close> participant 1 is registered with queue 0, which is full, and
  after the kick that queue is unchanged and holds neither the event nor the sentinel.
\<close>

theorem kick_full_channel_counterexample:
  "map_of (conns_of full_hub 1) 1 = Some 0 \<and>
   queues (kick_participant full_hub 1 1 None) 0 = queues full_hub 0 \<and>
   None \<notin> set (queues (kick_participant full_hub 1 1 None) 0) \<and>
   Some [(''type'', PStr ''kicked''), (''reason'', PStr ''Removed by teacher'')]
     \<notin> set (queues (kick_participant full_hub 1 1 None) 0)"
proof -
  have c: "map_of (conns_of full_hub 1) 1 = Some 0" by (simp add: full_hub_conns)
  have "queues (kick_participant full_hub 1 1 None) 0 = replicate 256 (Some ping)"
    by (simp add: kicked_queue_content[OF wf_full_hub c] put_two_cases full_hub_queues maxsize_def)
  then show ?thesis using c by (simp add: full_hub_queues ping_def)
qed

text \<open>
  Claim C10, amended. In a well-formed state where \<open>P\<close> is registered in session \<open>S\<close>
  with queue \<open>q\<close>, \<^verbatim>\<open>kick_participant\<close> leaves the registry of \<open>S\<close> without \<open>P\<close>; \<open>q\<close>
  receives the \<^verbatim>\<open>kicked\<close> event and then the sentinel when it held at most 254 items,
  only the event when it held 255, and nothing when it was full; nothing of what \<open>q\<close>
  receives is the \<^verbatim>\<open>participant_kicked\<close> notice of that call, which goes to every other
  registered participant of \<open>S\<close> whose queue has room.
\<close>

theorem kick_own_queue:
  assumes "wf_hub h" and "map_of (conns_of h S) P = Some q"
  shows "conns_of (kick_participant h S P r) S = AList.delete P (conns_of h S) \<and>
         map_of (conns_of (kick_participant h S P r) S) P = None \<and>
         queues (kick_participant h S P r) q =
           (if length (queues h q) + 2 \<le> maxsize
            then queues h q @ [Some [(''type'', PStr ''kicked''),
                                     (''reason'', PStr (str_or r ''Removed by teacher''))], None]
            else if length (queues h q) + 1 = maxsize
            then queues h q @ [Some [(''type'', PStr ''kicked''),
                                     (''reason'', PStr (str_or r ''Removed by teacher''))]]
            else queues h q) \<and>
         Some [(''type'', PStr ''participant_kicked''), (''participant_id'', PInt P)]
           \<notin> set (drop (length (queues h q)) (queues (kick_participant h S P r) q)) \<and>
         (\<forall>P' q'. P' \<noteq> P \<and> map_of (conns_of h S) P' = Some q' \<longrightarrow>
            queues (kick_participant h S P r) q' =
              (if maxsize \<le> length (queues h q') then queues h q'
               else queues h q' @ [Some [(''type'', PStr ''participant_kicked''),
                                         (''participant_id'', PInt P)]]))"
proof -
  have a: "conns_of (kick_participant h S P r) S = AList.delete P (conns_of h S)"
    by (simp add: kick_conns)
  have b: "map_of (conns_of (kick_participant h S P r) S) P = None"
    by (simp add: a delete_conv')
  have c: "queues (kick_participant h S P r) q =
           put_two (queues h q)
             (Some [(''type'', PStr ''kicked''), (''reason'', PStr (str_or r ''Removed by teacher''))])
             None"
    by (rule kicked_queue_content[OF assms])
  have d: "Some [(''type'', PStr ''participant_kicked''), (''participant_id'', PInt P)]
           \<notin> set (drop (length (queues h q)) (queues (kick_participant h S P r) q))"
    by (simp add: c put_two_drop)
  have e: "\<forall>P' q'. P' \<noteq> P \<and> map_of (conns_of h S) P' = Some q' \<longrightarrow>
            queues (kick_participant h S P r) q' =
              (if maxsize \<le> length (queues h q') then queues h q'
               else queues h q' @ [Some [(''type'', PStr ''participant_kicked''),
                                         (''participant_id'', PInt P)]])"
    using kick_other_queue_content[OF assms(1)] by blast
  from a b c d e show ?thesis by (simp add: put_two_cases)
qed

theorem kick_own_queue_witness:
  "wf_hub two_hub \<and> map_of (conns_of two_hub 1) 1 = Some 0 \<and>
   conns_of (kick_participant two_hub 1 1 None) 1 = [(2, 1)] \<and>
   queues (kick_participant two_hub 1 1 None) 0 =
     [Some [(''type'', PStr ''kicked''), (''reason'', PStr ''Removed by teacher'')], None] \<and>
   map_of (conns_of two_hub 1) 2 = Some 1 \<and>
   queues (kick_participant two_hub 1 1 None) 1 =
     [Some [(''type'', PStr ''participant_kicked''), (''participant_id'', PInt 1)]]"
proof -
  have c: "map_of (conns_of two_hub 1) 1 = Some 0" "map_of (conns_of two_hub 1) 2 = Some 1"
    by (simp_all add: two_hub_conns)
  have n: "(2::int) \<noteq> 1" by simp
  note k = kick_own_queue[OF wf_two_hub c(1), of None]
  have other: "queues (kick_participant two_hub 1 1 None) 1 =
     [Some [(''type'', PStr ''participant_kicked''), (''participant_id'', PInt 1)]]"
    using k[THEN conjunct2, THEN conjunct2, THEN conjunct2, THEN conjunct2, rule_format, of 2 1] c n
    by (simp add: two_hub_queues maxsize_def)
  from k other c show ?thesis using wf_two_hub
    by (simp add: two_hub_conns two_hub_queues maxsize_def str_or_def)
qed

section \<open>Closing a session\<close>

lemma close_session_registry:
  "active (close_session h S) = (active h)(S := None)"
  "SESSION_STATE (close_session h S) = (SESSION_STATE h)(S := None)"
  "next_queue (close_session h S) = next_queue h"
  "queues (close_session h S) = close_loop (queues h) (conns_of h S)"
  by (simp_all add: close_session_def)

lemma close_session_at:
  assumes "wf_hub h" and "map_of (conns_of h S) pid = Some q"
  shows "queues (close_session h S) q =
           put_two (queues h q) (Some [(''type'', PStr ''session_ended'')]) None"
proof -
  from assms(2) have "(pid, q) \<in> set (conns_of h S)" by (rule map_of_SomeD)
  with wf_hub_distinct[OF assms(1)] show ?thesis
    by (simp add: close_session_registry close_loop_at)
qed

text \<open>
  Claim C6 says that every channel registered for the session has received
  \<^verbatim>\<open>session_ended\<close> and then the sentinel once \<^verbatim>\<open>close_session\<close> returns. The two pushes
  share a \<^verbatim>\<open>try\<close> whose \<^verbatim>\<open>QueueFull\<close> handler does nothing: in \<open>full_hub\<close> participant 1
  is registered with the full queue 0, and after the call that queue is unchanged and
  holds neither the event nor the sentinel.
\<close>

theorem close_session_full_channel_counterexample:
  "map_of (conns_of full_hub 1) 1 = Some 0 \<and>
   queues (close_session full_hub 1) 0 = queues full_hub 0 \<and>
   None \<notin> set (queues (close_session full_hub 1) 0) \<and>
   Some [(''type'', PStr ''session_ended'')] \<notin> set (queues (close_session full_hub 1) 0)"
proof -
  have c: "map_of (conns_of full_hub 1) 1 = Some 0" by (simp add: full_hub_conns)
  have "queues (close_session full_hub 1) 0 = replicate 256 (Some ping)"
    by (simp add: close_session_at[OF wf_full_hub c] put_two_cases full_hub_queues maxsize_def)
  then show ?thesis using c by (simp add: full_hub_queues ping_def)
qed

text \<open>
  Claim C6, amended. In a well-formed state, after \<^verbatim>\<open>close_session(S)\<close> the session is
  absent from \<^verbatim>\<open>self.active\<close> and from \<^verbatim>\<open>SESSION_STATE\<close>, the other sessions are as
  before, and every queue that was registered for \<open>S\<close> has received \<^verbatim>\<open>session_ended\<close>
  followed by the sentinel when it held at most 254 items, only \<^verbatim>\<open>session_ended\<close> when it
  held 255, and nothing when it was full; queues not registered for \<open>S\<close> are unchanged.
\<close>

theorem close_session_effect:
  assumes "wf_hub h"
  shows "active (close_session h S) S = None \<and>
         SESSION_STATE (close_session h S) S = None \<and>
         (\<forall>S'. S' \<noteq> S \<longrightarrow> active (close_session h S) S' = active h S' \<and>
                          SESSION_STATE (close_session h S) S' = SESSION_STATE h S') \<and>
         (\<forall>pid q. map_of (conns_of h S) pid = Some q \<longrightarrow>
            queues (close_session h S) q =
              (if length (queues h q) + 2 \<le> maxsize
               then queues h q @ [Some [(''type'', PStr ''session_ended'')], None]
               else if length (queues h q) + 1 = maxsize
               then queues h q @ [Some [(''type'', PStr ''session_ended'')]]
               else queues h q)) \<and>
         (\<forall>q. q \<notin> snd ` set (conns_of h S) \<longrightarrow> queues (close_session h S) q = queues h q)"
proof -
  have "\<forall>pid q. map_of (conns_of h S) pid = Some q \<longrightarrow>
            queues (close_session h S) q =
              put_two (queues h q) (Some [(''type'', PStr ''session_ended'')]) None"
    using close_session_at[OF assms] by blast
  then show ?thesis
    by (simp add: close_session_registry close_loop_other put_two_cases)
qed

theorem close_session_effect_witness:
  "wf_hub two_hub \<and>
   active (close_session two_hub 1) 1 = None \<and>
   SESSION_STATE (close_session two_hub 1) 1 = None \<and>
   map_of (conns_of two_hub 1) 1 = Some 0 \<and>
   map_of (conns_of two_hub 1) 2 = Some 1 \<and>
   queues (close_session two_hub 1) 0 = [Some [(''type'', PStr ''session_ended'')], None] \<and>
   queues (close_session two_hub 1) 1 = [Some [(''type'', PStr ''session_ended'')], None] \<and>
   queues (close_session two_hub 1) 9 = queues two_hub 9"
proof -
  have c: "map_of (conns_of two_hub 1) 1 = Some 0" "map_of (conns_of two_hub 1) 2 = Some 1"
    by (simp_all add: two_hub_conns)
  have o: "(9::nat) \<notin> snd ` set (conns_of two_hub 1)" by (simp add: two_hub_conns)
  note k = close_session_effect[OF wf_two_hub, of 1]
  note kq = k[THEN conjunct2, THEN conjunct2, THEN conjunct2, THEN conjunct1, rule_format]
  have q0: "queues (close_session two_hub 1) 0 = [Some [(''type'', PStr ''session_ended'')], None]"
    using kq[OF c(1)] by (simp add: two_hub_queues maxsize_def)
  have q1: "queues (close_session two_hub 1) 1 = [Some [(''type'', PStr ''session_ended'')], None]"
    using kq[OF c(2)] by (simp add: two_hub_queues maxsize_def)
  from k q0 q1 c o wf_two_hub show ?thesis by simp
qed

section \<open>Muting after a kick\<close>

lemma mute_unknown_session: "SESSION_STATE h S = None \<Longrightarrow> mute_participant h S P b = h"
  by (simp add: mute_participant_def)

lemma mute_registry [simp]:
  "active (mute_participant h S P b) = active h"
  "next_queue (mute_participant h S P b) = next_queue h"
  "conns_of (mute_participant h S P b) S' = conns_of h S'"
  "session_conns (mute_participant h S P b) S' = session_conns h S'"
  by (simp_all add: mute_participant_def Let_def conns_of_def session_conns_def split: option.splits)

lemma mute_roster:
  "roster_entry (mute_participant h S P b) S P =
     (case SESSION_STATE h S of
        None \<Rightarrow> None
      | Some s \<Rightarrow> Some (AList.update ''is_muted'' (PBool b)
                         (case participants s P of None \<Rightarrow> [] | Some e \<Rightarrow> e)))"
  by (simp add: mute_participant_def Let_def roster_entry_def split: option.splits)

lemma mute_queues:
  "queues (mute_participant h S P b) =
     (if SESSION_STATE h S = None then queues h
      else broadcast_loop (queues h) (conns_of h S) {}
             [(''type'', PStr ''participant_muted''), (''participant_id'', PInt P),
              (''is_muted'', PBool b)])"
  by (simp add: mute_participant_def Let_def broadcast_queues conns_of_def exclude_set_def
      split: option.splits)

lemma kick_roster: "roster_entry (kick_participant h S P r) S P = None"
  by (simp add: roster_entry_def kick_SESSION_STATE split: option.splits)

lemma kick_session_conns:
  "session_conns (kick_participant h S P r) S = AList.delete P (session_conns h S)"
  by (simp add: session_conns_def kick_SESSION_STATE split: option.splits)

lemma kick_session_known:
  "(SESSION_STATE (kick_participant h S P r) S = None) = (SESSION_STATE h S = None)"
  by (simp add: kick_SESSION_STATE split: option.splits)

lemma roster_after_kick_then_mute:
  "roster_entry (mute_participant (kick_participant h S P r) S P b) S P =
     (if SESSION_STATE h S = None then None else Some [(''is_muted'', PBool b)])"
  by (simp add: mute_roster kick_SESSION_STATE split: option.splits)

lemma two_hub_session: "SESSION_STATE two_hub 1 \<noteq> None"
  by (simp add: two_hub_def one_hub_def empty_hub_def connect_def Let_def)

text \<open>
  Claim C1 says that a mute after a kick is a no-op: no roster entry is created again and
  no \<^verbatim>\<open>participant_muted\<close> event is broadcast. \<^verbatim>\<open>mute_participant\<close> only checks that the
  session exists and then uses \<^verbatim>\<open>setdefault(participant_id, {})\<close>: in \<open>two_hub\<close>, after
  participant 1 of session 1 is kicked its roster entry is gone, and the mute creates the
  entry \<^verbatim>\<open>{"is_muted": True}\<close> and appends \<^verbatim>\<open>participant_muted\<close> to the queue of
  participant 2.
\<close>

theorem mute_after_kick_counterexample:
  "roster_entry (kick_participant two_hub 1 1 None) 1 1 = None \<and>
   roster_entry (mute_participant (kick_participant two_hub 1 1 None) 1 1 True) 1 1 =
     Some [(''is_muted'', PBool True)] \<and>
   queues (mute_participant (kick_participant two_hub 1 1 None) 1 1 True) 1 =
     queues (kick_participant two_hub 1 1 None) 1 @
       [Some [(''type'', PStr ''participant_muted''), (''participant_id'', PInt 1),
              (''is_muted'', PBool True)]]"
proof -
  have c: "map_of (conns_of two_hub 1) 1 = Some 0" "map_of (conns_of two_hub 1) 2 = Some 1"
    by (simp_all add: two_hub_conns)
  have k1: "queues (kick_participant two_hub 1 1 None) 1 =
     [Some [(''type'', PStr ''participant_kicked''), (''participant_id'', PInt 1)]]"
    using kick_other_queue_content[OF wf_two_hub c(2), of 1 None]
    by (simp add: two_hub_queues maxsize_def)
  have "queues (mute_participant (kick_participant two_hub 1 1 None) 1 1 True) 1 =
     queues (kick_participant two_hub 1 1 None) 1 @
       [Some [(''type'', PStr ''participant_muted''), (''participant_id'', PInt 1),
              (''is_muted'', PBool True)]]"
    using two_hub_session k1
    by (simp add: mute_queues kick_session_known kick_conns two_hub_conns put_nowait_def maxsize_def)
  then show ?thesis
    using two_hub_session by (simp add: kick_roster roster_after_kick_then_mute)
qed

text \<open>
  Claim C1, amended. After \<^verbatim>\<open>kick_participant(S, P, reason)\<close>, a following
  \<^verbatim>\<open>mute_participant(S, P, b)\<close> registers no channel for \<open>P\<close>, in neither connection
  dictionary, and (in a well-formed state) puts nothing on the queue \<open>P\<close> was kicked from.
  When \<open>S\<close> is in \<^verbatim>\<open>SESSION_STATE\<close> it creates a roster entry for \<open>P\<close> that holds
  \<^verbatim>\<open>is_muted\<close> only and broadcasts \<^verbatim>\<open>participant_muted\<close> to the channels still registered;
  when \<open>S\<close> is not in \<^verbatim>\<open>SESSION_STATE\<close> it changes nothing.
\<close>

theorem mute_after_kick:
  fixes h S P r b
  defines "k \<equiv> kick_participant h S P r"
  defines "m \<equiv> mute_participant (kick_participant h S P r) S P b"
  shows "active m = active k \<and>
         map_of (conns_of m S) P = None \<and>
         map_of (session_conns m S) P = None \<and>
         roster_entry k S P = None \<and>
         roster_entry m S P = (if SESSION_STATE h S = None then None else Some [(''is_muted'', PBool b)]) \<and>
         queues m =
           (if SESSION_STATE h S = None then queues k
            else broadcast_loop (queues k) (conns_of k S) {}
                   [(''type'', PStr ''participant_muted''), (''participant_id'', PInt P),
                    (''is_muted'', PBool b)]) \<and>
         (SESSION_STATE h S = None \<longrightarrow> m = k) \<and>
         (wf_hub h \<longrightarrow> (\<forall>q. map_of (conns_of h S) P = Some q \<longrightarrow> queues m q = queues k q))"
proof -
  have a: "active m = active k" by (simp add: m_def k_def)
  have b: "map_of (conns_of m S) P = None"
    by (simp add: m_def kick_conns delete_conv')
  have c: "map_of (session_conns m S) P = None"
    by (simp add: m_def kick_session_conns delete_conv')
  have d: "roster_entry k S P = None" by (simp add: k_def kick_roster)
  have e: "roster_entry m S P = (if SESSION_STATE h S = None then None else Some [(''is_muted'', PBool b)])"
    by (simp add: m_def roster_after_kick_then_mute)
  have f: "queues m =
           (if SESSION_STATE h S = None then queues k
            else broadcast_loop (queues k) (conns_of k S) {}
                   [(''type'', PStr ''participant_muted''), (''participant_id'', PInt P),
                    (''is_muted'', PBool b)])"
    by (simp add: m_def k_def mute_queues kick_session_known)
  have g: "SESSION_STATE h S = None \<longrightarrow> m = k"
    by (simp add: m_def k_def mute_unknown_session kick_session_known)
  have i: "wf_hub h \<longrightarrow> (\<forall>q. map_of (conns_of h S) P = Some q \<longrightarrow> queues m q = queues k q)"
  proof (intro impI allI)
    fix q
    assume wf: "wf_hub h" and q: "map_of (conns_of h S) P = Some q"
    from q have "(P, q) \<in> set (conns_of h S)" by (rule map_of_SomeD)
    with wf_hub_distinct[OF wf] have "q \<notin> snd ` set (AList.delete P (conns_of h S))"
      by (rule delete_drops_queue)
    then show "queues m q = queues k q"
      unfolding f by (simp add: k_def kick_conns broadcast_loop_other)
  qed
  from a b c d e f g i show ?thesis by blast
qed

theorem mute_after_kick_witness:
  "wf_hub two_hub \<and> map_of (conns_of two_hub 1) 1 = Some 0 \<and>
   queues (mute_participant (kick_participant two_hub 1 1 None) 1 1 True) 0 =
     queues (kick_participant two_hub 1 1 None) 0 \<and>
   SESSION_STATE two_hub 5 = None \<and>
   mute_participant (kick_participant two_hub 5 1 None) 5 1 True = kick_participant two_hub 5 1 None"
proof -
  have c: "map_of (conns_of two_hub 1) 1 = Some 0" by (simp add: two_hub_conns)
  have n: "SESSION_STATE two_hub 5 = None"
    by (simp add: two_hub_def one_hub_def empty_hub_def connect_def Let_def)
  note t1 = mute_after_kick[of two_hub 1 1 None True]
  note t5 = mute_after_kick[of two_hub 5 1 None True]
  from t1 wf_two_hub c
  have "queues (mute_participant (kick_participant two_hub 1 1 None) 1 1 True) 0 =
     queues (kick_participant two_hub 1 1 None) 0" by blast
  moreover from t5 n
  have "mute_participant (kick_participant two_hub 5 1 None) 5 1 True = kick_participant two_hub 5 1 None"
    by blast
  ultimately show ?thesis using wf_two_hub c n by simp
qed

section \<open>Disconnecting\<close>

lemma delete_absent: "map_of c P = None \<Longrightarrow> AList.delete P c = c"
  by (simp add: map_of_eq_None_iff)

lemma disconnect_conns:
  "conns_of (disconnect h S P) S' = (if S' = S then AList.delete P (conns_of h S) else conns_of h S')"
  by (simp add: disconnect_def conns_of_def split: option.splits)

lemma disconnect_session_conns:
  "session_conns (disconnect h S P) S' =
     (if S' = S then AList.delete P (session_conns h S) else session_conns h S')"
  by (simp add: disconnect_def session_conns_def split: option.splits)

lemma disconnect_other_session:
  "S' \<noteq> S \<Longrightarrow> active (disconnect h S P) S' = active h S'"
  "S' \<noteq> S \<Longrightarrow> SESSION_STATE (disconnect h S P) S' = SESSION_STATE h S'"
  by (simp_all add: disconnect_def split: option.splits)

lemma disconnect_roster [simp]:
  "roster_entry (disconnect h S P) S' P' = roster_entry h S' P'"
  by (simp add: disconnect_def roster_entry_def split: option.splits)

lemma disconnect_participants:
  "map_option participants (SESSION_STATE (disconnect h S P) S') =
   map_option participants (SESSION_STATE h S')"
  by (simp add: disconnect_def split: option.splits)

lemma disconnect_playback [simp]:
  "playback_of (disconnect h S P) S' = playback_of h S'"
  by (simp add: disconnect_def playback_of_def split: option.splits)

lemma disconnect_store [simp]:
  "queues (disconnect h S P) = queues h"
  "next_queue (disconnect h S P) = next_queue h"
  by (simp_all add: disconnect_def)

lemma disconnect_doms:
  "dom (active (disconnect h S P)) = dom (active h)"
  "dom (SESSION_STATE (disconnect h S P)) = dom (SESSION_STATE h)"
  by (auto simp: disconnect_def split: option.splits if_splits)

lemma disconnect_absent:
  assumes "map_of (conns_of h S) P = None" and "map_of (session_conns h S) P = None"
  shows "disconnect h S P = h"
proof -
  have a: "(case active h S of None \<Rightarrow> active h
            | Some c \<Rightarrow> (active h)(S \<mapsto> AList.delete P c)) = active h"
    using assms(1) by (auto simp: conns_of_def delete_absent map_upd_triv split: option.splits)
  have b: "(case SESSION_STATE h S of None \<Rightarrow> SESSION_STATE h
            | Some s \<Rightarrow> (SESSION_STATE h)(S \<mapsto> s\<lparr>connections := AList.delete P (connections s)\<rparr>))
           = SESSION_STATE h"
    using assms(2) by (auto simp: session_conns_def delete_absent map_upd_triv split: option.splits)
  show ?thesis unfolding disconnect_def a b by simp
qed

lemma disconnect_twice: "disconnect (disconnect h S P) S P = disconnect h S P"
  by (rule disconnect_absent) (simp_all add: disconnect_conns disconnect_session_conns delete_conv')

lemma two_hub_session_conns: "session_conns two_hub S = (if S = 1 then [(1, 0), (2, 1)] else [])"
  by (simp add: two_hub_def one_hub_def empty_hub_def connect_def Let_def session_conns_def
      new_session_def)

lemma two_hub_roster:
  "roster_entry two_hub 1 1 =
     Some [(''user_id'', PInt 10), (''name'', PStr ''A''), (''is_muted'', PBool False),
           (''raised_hand'', PBool False), (''is_teacher'', PBool False)]"
  by (simp add: two_hub_def one_hub_def empty_hub_def connect_def Let_def roster_entry_def
      new_session_def dict_get_def)

text \<open>
  Claim C5. \<^verbatim>\<open>disconnect(S, P)\<close> removes the channel of \<open>P\<close> from both connection
  dictionaries of \<open>S\<close> and nothing else: the channels of the other participants, the
  other sessions, every roster (the entry of \<open>P\<close> included), every playback state and all
  queue contents are unchanged, and no session appears or disappears. When \<open>P\<close> has no
  registered channel the state is returned as it is, so a second disconnect changes
  nothing.
\<close>

theorem disconnect_frame:
  "conns_of (disconnect h S P) S = AList.delete P (conns_of h S) \<and>
   session_conns (disconnect h S P) S = AList.delete P (session_conns h S) \<and>
   map_of (conns_of (disconnect h S P) S) P = None \<and>
   map_of (session_conns (disconnect h S P) S) P = None \<and>
   (\<forall>P'. P' \<noteq> P \<longrightarrow>
      map_of (conns_of (disconnect h S P) S) P' = map_of (conns_of h S) P' \<and>
      map_of (session_conns (disconnect h S P) S) P' = map_of (session_conns h S) P') \<and>
   (\<forall>S'. S' \<noteq> S \<longrightarrow>
      active (disconnect h S P) S' = active h S' \<and>
      SESSION_STATE (disconnect h S P) S' = SESSION_STATE h S') \<and>
   dom (active (disconnect h S P)) = dom (active h) \<and>
   dom (SESSION_STATE (disconnect h S P)) = dom (SESSION_STATE h) \<and>
   (\<forall>S'. map_option participants (SESSION_STATE (disconnect h S P) S') =
         map_option participants (SESSION_STATE h S')) \<and>
   (\<forall>S'. playback_of (disconnect h S P) S' = playback_of h S') \<and>
   queues (disconnect h S P) = queues h \<and>
   next_queue (disconnect h S P) = next_queue h \<and>
   (map_of (conns_of h S) P = None \<and> map_of (session_conns h S) P = None \<longrightarrow>
      disconnect h S P = h) \<and>
   disconnect (disconnect h S P) S P = disconnect h S P"
  by (simp add: disconnect_conns disconnect_session_conns delete_conv' disconnect_other_session
      disconnect_doms disconnect_participants disconnect_absent disconnect_twice)

theorem disconnect_frame_witness:
  "conns_of (disconnect two_hub 1 1) 1 = [(2, 1)] \<and>
   session_conns (disconnect two_hub 1 1) 1 = [(2, 1)] \<and>
   (2::int) \<noteq> 1 \<and>
   map_of (conns_of (disconnect two_hub 1 1) 1) 2 = Some 1 \<and>
   roster_entry (disconnect two_hub 1 1) 1 1 = roster_entry two_hub 1 1 \<and>
   map_of (conns_of two_hub 1) 3 = None \<and> map_of (session_conns two_hub 1) 3 = None \<and>
   disconnect two_hub 1 3 = two_hub"
proof -
  have n: "map_of (conns_of two_hub 1) 3 = None" "map_of (session_conns two_hub 1) 3 = None"
    by (simp_all add: two_hub_conns two_hub_session_conns)
  have "disconnect two_hub 1 3 = two_hub"
    using disconnect_frame[of two_hub 1 3] n by blast
  moreover have "map_of (conns_of (disconnect two_hub 1 1) 1) 2 = Some 1"
    using disconnect_frame[of two_hub 1 1] by (simp add: two_hub_conns)
  ultimately show ?thesis
    using disconnect_frame[of two_hub 1 1] n
    by (simp add: two_hub_conns two_hub_session_conns)
qed

section \<open>Reconnecting\<close>

lemma connect_roster:
  "roster_entry (fst (connect h S P u n t)) S P =
     Some [(''user_id'', PInt u), (''name'', PStr n),
           (''is_muted'', dict_get (case roster_entry h S P of None \<Rightarrow> [] | Some e \<Rightarrow> e)
                             ''is_muted'' (PBool False)),
           (''raised_hand'', dict_get (case roster_entry h S P of None \<Rightarrow> [] | Some e \<Rightarrow> e)
                             ''raised_hand'' (PBool False)),
           (''is_teacher'', PBool t)]"
  by (simp add: connect_def Let_def roster_entry_def new_session_def split: option.splits)

lemma mute_roster_entry:
  "roster_entry (mute_participant h S P b) S P =
     (if SESSION_STATE h S = None then None
      else Some (AList.update ''is_muted'' (PBool b)
                   (case roster_entry h S P of None \<Rightarrow> [] | Some e \<Rightarrow> e)))"
  by (simp add: mute_participant_def Let_def roster_entry_def split: option.splits)

text \<open>
  Claim C4. After \<^verbatim>\<open>disconnect(S, P)\<close> and a new \<^verbatim>\<open>connect(S, P, u, n, t)\<close> the roster
  entry of \<open>P\<close> has the \<^verbatim>\<open>is_muted\<close> and \<^verbatim>\<open>raised_hand\<close> values that the entry had before
  the disconnect (\<^verbatim>\<open>False\<close> where the old entry had none), while \<^verbatim>\<open>user_id\<close>, \<^verbatim>\<open>name\<close> and
  \<^verbatim>\<open>is_teacher\<close> are those of the new call. A first \<^verbatim>\<open>connect\<close> always leaves an entry
  with both flags, so this covers connect, disconnect, connect with anything in between
  that sets the flags.
\<close>

theorem reconnect_keeps_flags:
  "roster_entry (fst (connect (disconnect h S P) S P u n t)) S P =
     Some [(''user_id'', PInt u), (''name'', PStr n),
           (''is_muted'', dict_get (case roster_entry h S P of None \<Rightarrow> [] | Some e \<Rightarrow> e)
                             ''is_muted'' (PBool False)),
           (''raised_hand'', dict_get (case roster_entry h S P of None \<Rightarrow> [] | Some e \<Rightarrow> e)
                             ''raised_hand'' (PBool False)),
           (''is_teacher'', PBool t)] \<and>
   (\<forall>e m r. roster_entry h S P = Some e \<and> map_of e ''is_muted'' = Some m \<and>
             map_of e ''raised_hand'' = Some r \<longrightarrow>
      roster_entry (fst (connect (disconnect h S P) S P u n t)) S P =
        Some [(''user_id'', PInt u), (''name'', PStr n), (''is_muted'', m),
              (''raised_hand'', r), (''is_teacher'', PBool t)]) \<and>
   (\<exists>e. roster_entry (fst (connect h S P u0 n0 t0)) S P = Some e \<and>
        map_of e ''is_muted'' \<noteq> None \<and> map_of e ''raised_hand'' \<noteq> None)"
  by (auto simp: connect_roster dict_get_def)

theorem reconnect_keeps_flags_witness:
  "roster_entry (mute_participant two_hub 1 1 True) 1 1 =
     Some [(''user_id'', PInt 10), (''name'', PStr ''A''), (''is_muted'', PBool True),
           (''raised_hand'', PBool False), (''is_teacher'', PBool False)] \<and>
   roster_entry (fst (connect (disconnect (mute_participant two_hub 1 1 True) 1 1) 1 1 11 ''Ann'' True)) 1 1 =
     Some [(''user_id'', PInt 11), (''name'', PStr ''Ann''), (''is_muted'', PBool True),
           (''raised_hand'', PBool False), (''is_teacher'', PBool True)]"
proof -
  let ?e = "[(''user_id'', PInt 10), (''name'', PStr ''A''), (''is_muted'', PBool True),
           (''raised_hand'', PBool False), (''is_teacher'', PBool False)]"
  have e: "roster_entry (mute_participant two_hub 1 1 True) 1 1 = Some ?e"
    using two_hub_session by (simp add: mute_roster_entry two_hub_roster)
  have f: "map_of ?e ''is_muted'' = Some (PBool True)" "map_of ?e ''raised_hand'' = Some (PBool False)"
    by simp_all
  from reconnect_keeps_flags[of "mute_participant two_hub 1 1 True" 1 1 11 "''Ann''" True, THEN conjunct2,
      THEN conjunct1, rule_format, of ?e "PBool True" "PBool False"] e f
  show ?thesis by simp
qed

section \<open>Delivery changes nothing but queue contents\<close>

lemma two_hub_doms: "dom (active two_hub) = {1}" "dom (SESSION_STATE two_hub) = {1}"
  by (auto simp: two_hub_def one_hub_def empty_hub_def connect_def Let_def split: if_splits)

text \<open>
  Claim C9 says that delivery only enqueues onto queues that are registered.
  \<^verbatim>\<open>send_personal\<close> is handed a queue object and never looks at the registry: after
  participant 1 of session 1 has disconnected from \<open>two_hub\<close>, session 1 is the only
  session, both of its connection dictionaries hold participant 2 with queue 1 only, and a
  personal send to queue 0 still appends the message to it.
\<close>

theorem send_personal_unregistered_counterexample:
  "dom (active (disconnect two_hub 1 1)) = {1} \<and>
   dom (SESSION_STATE (disconnect two_hub 1 1)) = {1} \<and>
   conns_of (disconnect two_hub 1 1) 1 = [(2, 1)] \<and>
   session_conns (disconnect two_hub 1 1) 1 = [(2, 1)] \<and>
   queues (disconnect two_hub 1 1) 0 = [] \<and>
   queues (send_personal (disconnect two_hub 1 1) 0 ping) 0 = [Some ping]"
  by (simp add: disconnect_doms two_hub_doms disconnect_conns disconnect_session_conns
      two_hub_conns two_hub_session_conns send_personal_queues two_hub_queues maxsize_def)

text \<open>
  Claim C9, amended. \<^verbatim>\<open>broadcast\<close> and \<^verbatim>\<open>send_personal\<close> leave the shared hub state as it
  was: \<^verbatim>\<open>self.active\<close>, \<^verbatim>\<open>SESSION_STATE\<close> (so every roster, every playback state and the
  registered channels) and the queue allocator are the same before and after. A
  broadcast changes only queues registered for the session, and what it does to any queue
  is to append copies of the message. A personal send changes only the queue it was
  given, registered or not: it appends the message when that queue has room and does
  nothing when it is full.
\<close>

theorem delivery_frame:
  "active (broadcast h S M E) = active h \<and>
   SESSION_STATE (broadcast h S M E) = SESSION_STATE h \<and>
   next_queue (broadcast h S M E) = next_queue h \<and>
   (\<forall>q. q \<notin> snd ` set (conns_of h S) \<longrightarrow> queues (broadcast h S M E) q = queues h q) \<and>
   (\<forall>q. \<exists>n. queues (broadcast h S M E) q = queues h q @ replicate n (Some M)) \<and>
   active (send_personal h q0 M) = active h \<and>
   SESSION_STATE (send_personal h q0 M) = SESSION_STATE h \<and>
   next_queue (send_personal h q0 M) = next_queue h \<and>
   (\<forall>q. q \<noteq> q0 \<longrightarrow> queues (send_personal h q0 M) q = queues h q) \<and>
   (queues (send_personal h q0 M) q0 = queues h q0 \<or>
    queues (send_personal h q0 M) q0 = queues h q0 @ [Some M]) \<and>
   queues (send_personal h q0 M) q0 =
     (if maxsize \<le> length (queues h q0) then queues h q0 else queues h q0 @ [Some M])"
  by (simp add: broadcast_queues broadcast_loop_other broadcast_loop_appends send_personal_queues)

theorem delivery_frame_witness:
  "active (broadcast two_hub 1 ping None) = active two_hub \<and>
   SESSION_STATE (broadcast two_hub 1 ping None) = SESSION_STATE two_hub \<and>
   queues (broadcast two_hub 1 ping None) 7 = queues two_hub 7 \<and>
   queues (broadcast two_hub 1 ping None) 0 = [Some ping] \<and>
   queues (send_personal two_hub 0 ping) 1 = queues two_hub 1 \<and>
   queues (send_personal two_hub 0 ping) 0 = [Some ping]"
proof -
  have "(7::nat) \<notin> snd ` set (conns_of two_hub 1)" by (simp add: two_hub_conns)
  moreover have "(1::nat) \<noteq> 0" by simp
  moreover have "queues (broadcast two_hub 1 ping None) 0 = [Some ping]"
    by (simp add: broadcast_queues two_hub_conns two_hub_queues put_nowait_def maxsize_def exclude_set_def)
  moreover have "queues (send_personal two_hub 0 ping) 0 = [Some ping]"
    by (simp add: send_personal_queues two_hub_queues maxsize_def)
  ultimately show ?thesis
    using delivery_frame[of two_hub 1 ping None 0] by simp
qed

section \<open>The playback invariant\<close>











lemma control_success:
  assumes "control_audio_playback h db S c = Inr (h', act, pb)"
  shows "\<exists>s msg. SESSION_STATE h S = Some s \<and>
           h' = broadcast (h\<lparr>SESSION_STATE := (SESSION_STATE h)(S \<mapsto> s\<lparr>playback := pb\<rparr>)\<rparr>) S msg None \<and>
           (c_action c = ''play'' \<and> dict_get pb ''audio_id'' PNone \<noteq> PNone \<or>
            c_action c = ''pause'' \<and> pb = dict_update (playback s)
                [(''status'', PStr ''paused''), (''position'', PFloat (c_position c))] \<or>
            c_action c = ''seek'' \<and> pb = dict_update (playback s)
                [(''position'', PFloat (c_position c))])"
  using assms
  by (auto simp: control_audio_playback_def Let_def dict_get_def dict_update_def update_conv'
      split: option.splits if_splits pyval.splits)











section \<open>Select, play, seek\<close>







lemma audio_play_queues:
  "SESSION_STATE h S = Some s \<Longrightarrow>
   queues (audio_play h S a sp pos) =
     broadcast_loop (queues h) (conns_of h S) {}
       [(''type'', PStr ''audio_play''), (''audio_id'', PInt a),
        (''speed'', PFloat sp), (''position'', PFloat pos)]"
  by (simp add: audio_play_def Let_def conns_of_def broadcast_queues exclude_set_def)














section \<open>Every reachable state is well-formed\<close>

text \<open>
  The theorems above that assume a well-formed state hold of every state the manager can
  reach: only \<^verbatim>\<open>connect\<close> adds a queue to a connection dictionary, and the queue it adds
  is new.
\<close>

lemma wf_hub_cong:
  "active h' = active h \<Longrightarrow> next_queue h' = next_queue h \<Longrightarrow> wf_hub h' = wf_hub h"
  by (simp add: wf_hub_def conns_of_def)

lemma wf_hub_send_personal: "wf_hub h \<Longrightarrow> wf_hub (send_personal h q m)"
  by (simp add: wf_hub_cong[of "send_personal h q m" h])

lemma wf_hub_broadcast: "wf_hub h \<Longrightarrow> wf_hub (broadcast h S M E)"
  by (simp add: wf_hub_cong[of "broadcast h S M E" h])

lemma wf_hub_mute: "wf_hub h \<Longrightarrow> wf_hub (mute_participant h S P b)"
  by (simp add: wf_hub_cong[of "mute_participant h S P b" h])

lemma wf_hub_close_session: "wf_hub h \<Longrightarrow> wf_hub (close_session h S)"
  by (simp add: wf_hub_def conns_of_def close_session_registry)

lemma wf_hub_queues_update: "wf_hub (h\<lparr>queues := qs\<rparr>) = wf_hub h"
  by (simp add: wf_hub_def conns_of_def)

lemma wf_hub_disconnect_participant:
  "wf_hub h \<Longrightarrow> wf_hub (disconnect_participant h S P r)"
  by (simp add: disconnect_participant_def Let_def wf_hub_queues_update wf_hub_disconnect
      split: option.splits)

lemma wf_hub_audio_select:
  assumes "wf_hub h"
  shows "wf_hub (audio_select h S a title)"
proof -
  have "active (audio_select h S a title) = active h"
    "next_queue (audio_select h S a title) = next_queue h"
    by (simp_all add: audio_select_def Let_def)
  from wf_hub_cong[OF this] assms show ?thesis by simp
qed

lemma wf_hub_audio_play:
  assumes "wf_hub h"
  shows "wf_hub (audio_play h S a sp pos)"
proof -
  have "active (audio_play h S a sp pos) = active h"
    "next_queue (audio_play h S a sp pos) = next_queue h"
    by (simp_all add: audio_play_def Let_def split: option.splits)
  from wf_hub_cong[OF this] assms show ?thesis by simp
qed

lemma wf_hub_audio_pause:
  assumes "wf_hub h"
  shows "wf_hub (audio_pause h S pos)"
proof -
  have "active (audio_pause h S pos) = active h"
    "next_queue (audio_pause h S pos) = next_queue h"
    by (simp_all add: audio_pause_def Let_def split: option.splits)
  from wf_hub_cong[OF this] assms show ?thesis by simp
qed

lemma wf_hub_control:
  assumes "wf_hub h" and "control_audio_playback h db S c = Inr (h', act, pb)"
  shows "wf_hub h'"
proof -
  from control_success[OF assms(2)] obtain s msg where
    "h' = broadcast (h\<lparr>SESSION_STATE := (SESSION_STATE h)(S \<mapsto> s\<lparr>playback := pb\<rparr>)\<rparr>) S msg None"
    by blast
  then have "active h' = active h" "next_queue h' = next_queue h" by simp_all
  with assms(1) show ?thesis by (simp add: wf_hub_cong[of h' h])
qed

lemma reachable_wf: "reachable h \<Longrightarrow> wf_hub h"
proof (induction rule: reachable.induct)
  case r_start
  show ?case by (rule wf_hub_empty)
next
  case (r_control h db sid c h' a pb)
  then show ?case by (blast intro: wf_hub_control)
qed (simp_all add: wf_hub_connect wf_hub_disconnect wf_hub_send_personal wf_hub_broadcast
    wf_hub_close_session wf_hub_mute wf_hub_kick wf_hub_disconnect_participant
    wf_hub_audio_select wf_hub_audio_play wf_hub_audio_pause)

end
